theory Spec2Isabelle
  imports Main
begin

section \<open>The function registry of the shell (src/function.cpp)\<close>

text \<open>
  The registry is a process-wide table from function names to function records, a set of
  tombstones, and a flag telling \<open>function_add\<close> that the definition being added comes from
  an autoloaded file. All of it is global mutable state in the source; here it is one record
  that every operation takes and returns. The collaborators the registry talks to (the
  environment store, the directories of the search path, the reader, the event bus, the
  reserved-keyword table, the autoload coordinator) are fields of the same record.
\<close>

subsection \<open>Data\<close>

type_synonym wcstring = string

text \<open>The list value of an environment variable.\<close>

type_synonym env_var_t = "wcstring list"

record event_t =
  ev_type :: int
  ev_function_name :: wcstring

text \<open>
  The definition request handed to \<open>function_add\<close>. Its \<open>definition\<close> is a C string
  pointer in the source, which may be null: \<open>None\<close> here.
\<close>

record function_data_t =
  fd_name :: wcstring
  fd_description :: wcstring
  fd_definition :: "wcstring option"
  fd_events :: "event_t list"
  fd_named_arguments :: "wcstring list"
  fd_inherit_vars :: "wcstring list"
  fd_shadow_scope :: bool

text \<open>The function record. \<open>definition_file\<close> is an interned pointer, null for a copy.\<close>

record function_info_t =
  fi_definition :: wcstring
  fi_description :: wcstring
  fi_definition_file :: "wcstring option"
  fi_definition_offset :: int
  fi_named_arguments :: "wcstring list"
  fi_inherit_vars :: "wcstring \<rightharpoonup> env_var_t"
  fi_is_autoload :: bool
  fi_shadow_scope :: bool

text \<open>
  A file of the search path: its modification time and the definition requests that
  sourcing it makes, each with the line offset the parser passes along.
\<close>

record file_t =
  file_mtime :: nat
  file_defs :: "(function_data_t \<times> int) list"

record autoload_entry_t =
  ae_file_path :: wcstring
  ae_mtime :: nat

text \<open>The requests the registry makes of the autoload coordinator, in the order made.\<close>

datatype coordinator_request = RequestLoad wcstring | RequestUnload wcstring

record shell_t =
  loaded_functions :: "wcstring \<rightharpoonup> function_info_t"
  function_tombstones :: "wcstring set"
  is_autoload :: bool
  autoload_entries :: "(wcstring \<times> autoload_entry_t) list"
  autoload_last_path :: "wcstring list"
  autoload_requests :: "coordinator_request list"
  env_vars :: "wcstring \<rightharpoonup> env_var_t"
  directories :: "wcstring \<rightharpoonup> (wcstring \<times> file_t) list"
  current_filename :: "wcstring option"
  event_handlers :: "event_t list"
  reserved_keywords :: "wcstring set"
  translate :: "wcstring \<Rightarrow> wcstring"

text \<open>What a null pointer dereference does is undefined in C++; the model makes it a value.\<close>

datatype fault = NullDereference

subsection \<open>Collaborators\<close>

text \<open>
  Modelled from the spec: the reserved-keyword table (parser_keywords.h is not part of the
  sources), \<open>is_reserved(name)\<close>, a membership test in a table that the state carries.
\<close>

definition parser_keywords_is_reserved :: "shell_t \<Rightarrow> wcstring \<Rightarrow> bool" where
  "parser_keywords_is_reserved s word = (word \<in> reserved_keywords s)"

text \<open>
  Modelled from the spec: the environment store's get-by-name (env.h is not part of the
  sources); \<open>None\<close> is a missing variable.
\<close>

definition env_get :: "shell_t \<Rightarrow> wcstring \<Rightarrow> env_var_t option" where
  "env_get s key = env_vars s key"

text \<open>
  Modelled from the spec: the missing/empty distinction of the environment store; a
  variable is empty when its list value has no element.
\<close>

definition missing_or_empty :: "env_var_t option \<Rightarrow> bool" where
  "missing_or_empty v = (case v of None \<Rightarrow> True | Some vals \<Rightarrow> vals = [])"

text \<open>
  Modelled from the spec: the reader's \<open>current_filename()\<close>, the optional path of the
  script being sourced.
\<close>

definition reader_current_filename :: "shell_t \<Rightarrow> wcstring option" where
  "reader_current_filename s = current_filename s"

text \<open>
  Modelled from the spec: the string interner (intern.h is not part of the sources) returns
  a stable pointer to an equal string; a null pointer stays null.
\<close>

definition intern :: "wcstring option \<Rightarrow> wcstring option" where
  "intern filename = filename"

text \<open>
  Modelled from the spec: the event bus (event.h is not part of the sources),
  \<open>add_handler(event)\<close> and \<open>remove_all_for_function_name(name)\<close>, over the list of
  registered handlers.
\<close>

definition event_add_handler :: "event_t \<Rightarrow> shell_t \<Rightarrow> shell_t" where
  "event_add_handler ev s = s\<lparr>event_handlers := event_handlers s @ [ev]\<rparr>"

definition event_remove :: "wcstring \<Rightarrow> shell_t \<Rightarrow> shell_t" where
  "event_remove name s =
     s\<lparr>event_handlers := filter (\<lambda>ev. ev_function_name ev \<noteq> name) (event_handlers s)\<rparr>"

subsection \<open>Removal\<close>

text \<open>
  \<open>function_remove_ignore_autoload\<close>: erase the record if there is one; an autoloaded
  record leaves a tombstone unless the caller asks for none.
\<close>

definition function_remove_ignore_autoload ::
  "wcstring \<Rightarrow> bool \<Rightarrow> shell_t \<Rightarrow> bool \<times> shell_t" where
  "function_remove_ignore_autoload name tombstone s =
     (case loaded_functions s name of
        None \<Rightarrow> (False, s)
      | Some info \<Rightarrow>
          (let s1 = (if fi_is_autoload info \<and> tombstone
                     then s\<lparr>function_tombstones := insert name (function_tombstones s)\<rparr>
                     else s);
               s2 = s1\<lparr>loaded_functions := (loaded_functions s1)(name := None)\<rparr>
           in (True, event_remove name s2)))"

text \<open>The coordinator's callback: removal without a tombstone.\<close>

definition autoloaded_function_removed :: "wcstring \<Rightarrow> shell_t \<Rightarrow> shell_t" where
  "autoloaded_function_removed cmd s = snd (function_remove_ignore_autoload cmd False s)"

text \<open>
  Modelled from the spec: the coordinator's \<open>unload(name)\<close> (autoload.h is not part of the
  sources) removes its bookkeeping for the name, and a name it drops goes through the
  removal callback.
\<close>

definition autoload_unload :: "wcstring \<Rightarrow> shell_t \<Rightarrow> shell_t" where
  "autoload_unload name s =
     (let s1 = s\<lparr>autoload_requests := autoload_requests s @ [RequestUnload name]\<rparr>
      in case map_of (autoload_entries s1) name of
           None \<Rightarrow> s1
         | Some e \<Rightarrow>
             autoloaded_function_removed name
               (s1\<lparr>autoload_entries := filter (\<lambda>p. fst p \<noteq> name) (autoload_entries s1)\<rparr>))"

definition function_remove :: "wcstring \<Rightarrow> shell_t \<Rightarrow> shell_t" where
  "function_remove name s =
     (case function_remove_ignore_autoload name True s of
        (True, s1) \<Rightarrow> autoload_unload name s1
      | (False, s1) \<Rightarrow> s1)"

subsection \<open>Records and insertion\<close>

text \<open>
  \<open>snapshot_vars\<close>: the variables of the list that are defined, with their values; the
  insertion into the result never replaces an entry.
\<close>

fun snapshot_vars_from ::
  "shell_t \<Rightarrow> (wcstring \<rightharpoonup> env_var_t) \<Rightarrow> wcstring list \<Rightarrow> (wcstring \<rightharpoonup> env_var_t)" where
  "snapshot_vars_from s result [] = result"
| "snapshot_vars_from s result (v # vars) =
     (case env_get s v of
        None \<Rightarrow> snapshot_vars_from s result vars
      | Some var \<Rightarrow>
          snapshot_vars_from s (if result v = None then result(v \<mapsto> var) else result) vars)"

definition snapshot_vars :: "shell_t \<Rightarrow> wcstring list \<Rightarrow> (wcstring \<rightharpoonup> env_var_t)" where
  "snapshot_vars s vars = snapshot_vars_from s Map.empty vars"

text \<open>
  The two constructors of the function record, from a definition request and from an
  existing record. The first is reached only behind the null check of \<open>function_add\<close>.
\<close>

definition function_info_of_data ::
  "shell_t \<Rightarrow> function_data_t \<Rightarrow> wcstring option \<Rightarrow> int \<Rightarrow> bool \<Rightarrow> function_info_t" where
  "function_info_of_data s data filename def_offset autoload =
     \<lparr>fi_definition = (case fd_definition data of Some d \<Rightarrow> d | None \<Rightarrow> []),
      fi_description = fd_description data,
      fi_definition_file = intern filename,
      fi_definition_offset = def_offset,
      fi_named_arguments = fd_named_arguments data,
      fi_inherit_vars = snapshot_vars s (fd_inherit_vars data),
      fi_is_autoload = autoload,
      fi_shadow_scope = fd_shadow_scope data\<rparr>"

definition function_info_of_info ::
  "function_info_t \<Rightarrow> wcstring option \<Rightarrow> int \<Rightarrow> bool \<Rightarrow> function_info_t" where
  "function_info_of_info data filename def_offset autoload =
     \<lparr>fi_definition = fi_definition data,
      fi_description = fi_description data,
      fi_definition_file = intern filename,
      fi_definition_offset = def_offset,
      fi_named_arguments = fi_named_arguments data,
      fi_inherit_vars = fi_inherit_vars data,
      fi_is_autoload = autoload,
      fi_shadow_scope = fi_shadow_scope data\<rparr>"

text \<open>\<open>std::unordered_map::insert\<close>: a key that is present keeps its value.\<close>

definition map_insert :: "('k \<rightharpoonup> 'v) \<Rightarrow> 'k \<Rightarrow> 'v \<Rightarrow> ('k \<rightharpoonup> 'v)" where
  "map_insert m k v = (if m k = None then m(k \<mapsto> v) else m)"

fun add_event_handlers :: "event_t list \<Rightarrow> shell_t \<Rightarrow> shell_t" where
  "add_event_handlers [] s = s"
| "add_event_handlers (ev # evs) s = add_event_handlers evs (event_add_handler ev s)"

text \<open>
  \<open>function_add\<close>. The two \<open>CHECK\<close>s return without doing anything on an empty name or a
  null definition.
\<close>

definition function_add :: "function_data_t \<Rightarrow> int \<Rightarrow> shell_t \<Rightarrow> shell_t" where
  "function_add data definition_line_offset s =
     (if fd_name data = [] then s
      else if fd_definition data = None then s
      else
        (let s1 = function_remove (fd_name data) s;
             filename = reader_current_filename s1;
             info = function_info_of_data s1 data filename definition_line_offset
                      (is_autoload s1);
             s2 = s1\<lparr>loaded_functions :=
                       map_insert (loaded_functions s1) (fd_name data) info\<rparr>
         in add_event_handlers (fd_events data) s2))"

subsection \<open>Accessors\<close>

definition function_get :: "wcstring \<Rightarrow> shell_t \<Rightarrow> function_info_t option" where
  "function_get name s = loaded_functions s name"

text \<open>
  \<open>function_get_definition\<close> returns whether the function exists and writes the definition
  through the out pointer: \<open>Some d\<close> is \<open>true\<close> with \<open>d\<close> written, \<open>None\<close> is \<open>false\<close>.
\<close>

definition function_get_definition :: "wcstring \<Rightarrow> shell_t \<Rightarrow> wcstring option" where
  "function_get_definition name s =
     (case function_get name s of Some func \<Rightarrow> Some (fi_definition func) | None \<Rightarrow> None)"

definition function_get_named_arguments :: "wcstring \<Rightarrow> shell_t \<Rightarrow> wcstring list" where
  "function_get_named_arguments name s =
     (case function_get name s of Some func \<Rightarrow> fi_named_arguments func | None \<Rightarrow> [])"

definition function_get_inherit_vars ::
  "wcstring \<Rightarrow> shell_t \<Rightarrow> (wcstring \<rightharpoonup> env_var_t)" where
  "function_get_inherit_vars name s =
     (case function_get name s of Some func \<Rightarrow> fi_inherit_vars func | None \<Rightarrow> Map.empty)"

definition function_get_shadow_scope :: "wcstring \<Rightarrow> shell_t \<Rightarrow> bool" where
  "function_get_shadow_scope name s =
     (case function_get name s of Some func \<Rightarrow> fi_shadow_scope func | None \<Rightarrow> False)"

text \<open>\<open>function_get_desc\<close>: \<open>Some\<close> of the translated description, \<open>None\<close> for \<open>false\<close>.\<close>

definition function_get_desc :: "wcstring \<Rightarrow> shell_t \<Rightarrow> wcstring option" where
  "function_get_desc name s =
     (case function_get name s of
        Some func \<Rightarrow>
          (if fi_description func \<noteq> [] then Some (translate s (fi_description func))
           else None)
      | None \<Rightarrow> None)"

definition function_get_definition_file :: "wcstring \<Rightarrow> shell_t \<Rightarrow> wcstring option" where
  "function_get_definition_file name s =
     (case function_get name s of Some func \<Rightarrow> fi_definition_file func | None \<Rightarrow> None)"

text \<open>\<open>function_is_autoloaded\<close> reads through the pointer without testing it.\<close>

definition function_is_autoloaded :: "wcstring \<Rightarrow> shell_t \<Rightarrow> fault + bool" where
  "function_is_autoloaded name s =
     (case function_get name s of
        None \<Rightarrow> Inl NullDereference
      | Some func \<Rightarrow> Inr (fi_is_autoload func))"

definition function_get_definition_offset :: "wcstring \<Rightarrow> shell_t \<Rightarrow> int" where
  "function_get_definition_offset name s =
     (case function_get name s of Some func \<Rightarrow> fi_definition_offset func | None \<Rightarrow> - 1)"

subsection \<open>Copy\<close>

definition function_copy :: "wcstring \<Rightarrow> wcstring \<Rightarrow> shell_t \<Rightarrow> bool \<times> shell_t" where
  "function_copy name new_name s =
     (case loaded_functions s name of
        Some info \<Rightarrow>
          (True, s\<lparr>loaded_functions :=
                     map_insert (loaded_functions s) new_name
                       (function_info_of_info info None 0 False)\<rparr>)
      | None \<Rightarrow> (False, s))"

subsection \<open>The autoload coordinator\<close>

text \<open>
  Modelled from the spec: the search of the path (autoload.h is not part of the sources).
  A request for a name searches the directories in order for the name followed by
  \<open>.fish\<close>; the first match wins, and a directory that cannot be opened is passed over.
\<close>

fun locate_file ::
  "(wcstring \<rightharpoonup> (wcstring \<times> file_t) list) \<Rightarrow> wcstring list \<Rightarrow> wcstring \<Rightarrow>
   (wcstring \<times> file_t) option" where
  "locate_file dirs [] name = None"
| "locate_file dirs (d # path) name =
     (case dirs d of
        None \<Rightarrow> locate_file dirs path name
      | Some entries \<Rightarrow>
          (case map_of entries (name @ ''.fish'') of
             Some f \<Rightarrow> Some (d @ ''/'' @ name @ ''.fish'', f)
           | None \<Rightarrow> locate_file dirs path name))"

text \<open>
  Modelled from the spec: the coordinator drops a name by forgetting its entry and calling
  the removal callback, which the registry registered as \<open>autoloaded_function_removed\<close>.
\<close>

definition autoload_evict :: "wcstring \<Rightarrow> shell_t \<Rightarrow> shell_t" where
  "autoload_evict name s =
     (case map_of (autoload_entries s) name of
        None \<Rightarrow> s
      | Some e \<Rightarrow>
          autoloaded_function_removed name
            (s\<lparr>autoload_entries := filter (\<lambda>p. fst p \<noteq> name) (autoload_entries s)\<rparr>))"

fun autoload_evict_names :: "wcstring list \<Rightarrow> shell_t \<Rightarrow> shell_t" where
  "autoload_evict_names [] s = s"
| "autoload_evict_names (n # ns) s = autoload_evict_names ns (autoload_evict n s)"

definition autoload_evict_all :: "shell_t \<Rightarrow> shell_t" where
  "autoload_evict_all s = autoload_evict_names (map fst (autoload_entries s)) s"

text \<open>
  Modelled from the spec: the file sourcer. While the file runs the reader reports its
  path, and every definition request of the file goes through \<open>function_add\<close>.
\<close>

fun source_defs :: "(function_data_t \<times> int) list \<Rightarrow> shell_t \<Rightarrow> shell_t" where
  "source_defs [] s = s"
| "source_defs (d # ds) s = source_defs ds (function_add (fst d) (snd d) s)"

definition source_file :: "wcstring \<Rightarrow> file_t \<Rightarrow> shell_t \<Rightarrow> shell_t" where
  "source_file path f s =
     (let outer = current_filename s;
          s1 = source_defs (file_defs f) (s\<lparr>current_filename := Some path\<rparr>)
      in s1\<lparr>current_filename := outer\<rparr>)"

text \<open>
  Modelled from the spec: the coordinator's \<open>load(name, allow_reload)\<close>, for the
  \<open>allow_reload = true\<close> that the registry always passes. A missing or empty path variable
  finds nothing. A changed search path drops every loaded name. A cached entry whose file
  is still the first match with the same modification time is current, and the load does
  nothing. Otherwise the previous record is dropped through the callback and, when a file
  is found, it is sourced. The result is 1 when a file was sourced and 0 otherwise.
\<close>

definition autoload_load :: "wcstring \<Rightarrow> shell_t \<Rightarrow> int \<times> shell_t" where
  "autoload_load name s0 =
     (let s = s0\<lparr>autoload_requests := autoload_requests s0 @ [RequestLoad name]\<rparr>;
          path_var = env_get s ''fish_function_path''
      in if missing_or_empty path_var then (0, s)
         else
           (let path = (case path_var of Some vals \<Rightarrow> vals | None \<Rightarrow> []);
                s1 = (if path \<noteq> autoload_last_path s
                      then autoload_evict_all (s\<lparr>autoload_last_path := path\<rparr>)
                      else s)
            in case locate_file (directories s1) path name of
                 None \<Rightarrow> (0, autoload_evict name s1)
               | Some (file_path, f) \<Rightarrow>
                   (if map_of (autoload_entries s1) name =
                         Some \<lparr>ae_file_path = file_path, ae_mtime = file_mtime f\<rparr>
                    then (0, s1)
                    else
                      (let s2 = autoload_evict name s1;
                           s3 = s2\<lparr>autoload_entries :=
                                     autoload_entries s2 @
                                       [(name, \<lparr>ae_file_path = file_path,
                                                ae_mtime = file_mtime f\<rparr>)]\<rparr>
                       in (1, source_file file_path f s3)))))"

text \<open>
  Modelled from the spec: \<open>can_load(name, env_snapshot)\<close>, the side-effect-free form: does
  some directory in the snapshot's view of the path contain the file of the name?
\<close>

definition autoload_can_load ::
  "wcstring \<Rightarrow> (wcstring \<rightharpoonup> env_var_t) \<Rightarrow> shell_t \<Rightarrow> bool" where
  "autoload_can_load cmd vars s =
     (case vars ''fish_function_path'' of
        None \<Rightarrow> False
      | Some path \<Rightarrow> locate_file (directories s) path cmd \<noteq> None)"

subsection \<open>Loading and existence\<close>

text \<open>
  \<open>load\<close>: a tombstoned name and a name with a record that is not autoloaded return 0
  before the coordinator is asked; otherwise the coordinator loads with the flag set.
  \<open>function_exists\<close> and \<open>function_exists_no_autoload\<close> return an \<open>int\<close> that holds a
  truth value, and \<open>get_hidden\<close> below is such an \<open>int\<close> too: they are \<open>bool\<close> here.
\<close>

definition load :: "wcstring \<Rightarrow> shell_t \<Rightarrow> int \<times> shell_t" where
  "load name s =
     (let was_autoload = is_autoload s;
          no_more_autoload = (name \<in> function_tombstones s)
      in if no_more_autoload then (0, s)
         else if (case loaded_functions s name of
                    Some info \<Rightarrow> \<not> fi_is_autoload info
                  | None \<Rightarrow> False)
         then (0, s)
         else
           (case autoload_load name (s\<lparr>is_autoload := True\<rparr>) of
              (res, s1) \<Rightarrow> (res, s1\<lparr>is_autoload := was_autoload\<rparr>)))"

definition function_exists :: "wcstring \<Rightarrow> shell_t \<Rightarrow> bool \<times> shell_t" where
  "function_exists cmd s =
     (if parser_keywords_is_reserved s cmd then (False, s)
      else
        (case load cmd s of
           (res, s1) \<Rightarrow> (loaded_functions s1 cmd \<noteq> None, s1)))"

definition function_load :: "wcstring \<Rightarrow> shell_t \<Rightarrow> shell_t" where
  "function_load cmd s =
     (if \<not> parser_keywords_is_reserved s cmd then snd (load cmd s) else s)"

definition function_exists_no_autoload ::
  "wcstring \<Rightarrow> (wcstring \<rightharpoonup> env_var_t) \<Rightarrow> shell_t \<Rightarrow> bool \<times> shell_t" where
  "function_exists_no_autoload cmd vars s =
     (if parser_keywords_is_reserved s cmd then (False, s)
      else (loaded_functions s cmd \<noteq> None \<or> autoload_can_load cmd vars s, s))"

definition function_set_desc :: "wcstring \<Rightarrow> wcstring \<Rightarrow> shell_t \<Rightarrow> shell_t" where
  "function_set_desc name desc s =
     (let s1 = snd (load name s)
      in case loaded_functions s1 name of
           Some info \<Rightarrow>
             s1\<lparr>loaded_functions :=
                  (loaded_functions s1)(name \<mapsto> info\<lparr>fi_description := desc\<rparr>)\<rparr>
         | None \<Rightarrow> s1)"

subsection \<open>Enumeration of names\<close>

text \<open>
  \<open>wcsrchr\<close>: the suffix of the string that starts at the last occurrence of the
  character, \<open>None\<close> for the null pointer.
\<close>

fun wcsrchr :: "wcstring \<Rightarrow> char \<Rightarrow> wcstring option" where
  "wcsrchr [] c = None"
| "wcsrchr (x # xs) c =
     (case wcsrchr xs c of
        Some suffix \<Rightarrow> Some suffix
      | None \<Rightarrow> if x = c then Some (x # xs) else None)"

text \<open>
  The loop over the entries of one directory. \<open>fn[0]\<close> of the empty string is the
  terminator, which is not an underscore. The name inserted is the entry up to the suffix.
\<close>

fun autoload_names_dir :: "wcstring list \<Rightarrow> bool \<Rightarrow> wcstring set \<Rightarrow> wcstring set" where
  "autoload_names_dir [] get_hidden names = names"
| "autoload_names_dir (fn # entries) get_hidden names =
     (if \<not> get_hidden \<and> fn \<noteq> [] \<and> hd fn = CHR ''_''
      then autoload_names_dir entries get_hidden names
      else
        (case wcsrchr fn CHR ''.'' of
           Some suffix \<Rightarrow>
             (if suffix = ''.fish''
              then autoload_names_dir entries get_hidden
                     (insert (take (length fn - length suffix) fn) names)
              else autoload_names_dir entries get_hidden names)
         | None \<Rightarrow> autoload_names_dir entries get_hidden names))"

text \<open>The loop over the directories of the path; one that does not open is skipped.\<close>

fun autoload_names_path ::
  "shell_t \<Rightarrow> wcstring list \<Rightarrow> bool \<Rightarrow> wcstring set \<Rightarrow> wcstring set" where
  "autoload_names_path s [] get_hidden names = names"
| "autoload_names_path s (ndir # path_list) get_hidden names =
     (case directories s ndir of
        None \<Rightarrow> autoload_names_path s path_list get_hidden names
      | Some entries \<Rightarrow>
          autoload_names_path s path_list get_hidden
            (autoload_names_dir (map fst entries) get_hidden names))"

definition autoload_names :: "wcstring set \<Rightarrow> bool \<Rightarrow> shell_t \<Rightarrow> wcstring set" where
  "autoload_names names get_hidden s =
     (let path_var = env_get s ''fish_function_path''
      in if missing_or_empty path_var then names
         else
           (case path_var of
              Some path_list \<Rightarrow> autoload_names_path s path_list get_hidden names
            | None \<Rightarrow> names))"

text \<open>
  \<open>function_get_names\<close>: the names are collected in an unordered set and returned as a
  sequence in the set's order, which is not fixed; the model returns the set.
\<close>

definition function_get_names :: "bool \<Rightarrow> shell_t \<Rightarrow> wcstring set" where
  "function_get_names get_hidden s =
     autoload_names {} get_hidden s \<union>
     {name \<in> dom (loaded_functions s).
        \<not> (\<not> get_hidden \<and> (name = [] \<or> hd name = CHR ''_''))}"

subsection \<open>Environment preparation\<close>

text \<open>
  The environment store is a collaborator that this function only writes to: its effect
  is the sequence of requests it makes of the store.
\<close>

datatype env_mode_flag = ENV_LOCAL | ENV_USER

datatype env_request =
    EnvSetArgv "wcstring list"
  | EnvSetOne wcstring "env_mode_flag set" wcstring
  | EnvSetEmpty wcstring "env_mode_flag set"
  | EnvSet wcstring "env_mode_flag set" "wcstring list"

text \<open>
  The loop over the named arguments: \<open>arg\<close> walks the null-terminated vector and moves on
  only when it bound an element.
\<close>

fun bind_named_arguments :: "wcstring list \<Rightarrow> wcstring list \<Rightarrow> env_request list" where
  "bind_named_arguments [] arg = []"
| "bind_named_arguments (n # named_arguments) (a # arg) =
     EnvSetOne n {ENV_LOCAL, ENV_USER} a # bind_named_arguments named_arguments arg"
| "bind_named_arguments (n # named_arguments) [] =
     EnvSetEmpty n {ENV_LOCAL, ENV_USER} # bind_named_arguments named_arguments []"

text \<open>The inherited variables are given as the entries of the ordered map, in its order.\<close>

definition function_prepare_environment ::
  "wcstring \<Rightarrow> wcstring list \<Rightarrow> (wcstring \<times> env_var_t) list \<Rightarrow> shell_t \<Rightarrow>
   env_request list" where
  "function_prepare_environment name argv inherited_vars s =
     EnvSetArgv argv #
     bind_named_arguments (function_get_named_arguments name s) argv @
     map (\<lambda>it. EnvSet (fst it) {ENV_LOCAL, ENV_USER} (snd it)) inherited_vars"

subsection \<open>Sequences of existence and load requests\<close>

datatype lookup_request = Exists wcstring | Load wcstring

fun lookup :: "lookup_request \<Rightarrow> shell_t \<Rightarrow> shell_t" where
  "lookup (Exists cmd) s = snd (function_exists cmd s)"
| "lookup (Load cmd) s = function_load cmd s"

fun lookups :: "lookup_request list \<Rightarrow> shell_t \<Rightarrow> shell_t" where
  "lookups [] s = s"
| "lookups (r # rs) s = lookups rs (lookup r s)"

subsection \<open>Files of the search path\<close>

text \<open>
  The files in the directories of the search path, and whether a file other than the
  name's own holds a definition request for the name: sourcing such a file adds the name.
\<close>

definition path_files :: "shell_t \<Rightarrow> (wcstring \<times> file_t) list" where
  "path_files s =
     concat (map (\<lambda>dir. case directories s dir of None \<Rightarrow> [] | Some entries \<Rightarrow> entries)
       (case env_get s ''fish_function_path'' of None \<Rightarrow> [] | Some path \<Rightarrow> path))"

definition defined_by_other_file :: "wcstring \<Rightarrow> shell_t \<Rightarrow> bool" where
  "defined_by_other_file name s =
     (\<exists>entry \<in> set (path_files s).
        fst entry \<noteq> name @ ''.fish'' \<and>
        name \<in> set (map (\<lambda>d. fd_name (fst d)) (file_defs (snd entry))))"

subsection \<open>Relations between states\<close>

text \<open>
  A sequence of lookups holds no add. It can still reach \<open>function_add\<close> for a name, in
  one way only: it loads another name, and a file of another name defines the name.
\<close>

fun request_name :: "lookup_request \<Rightarrow> wcstring" where
  "request_name (Exists cmd) = cmd"
| "request_name (Load cmd) = cmd"

definition adds_by_sourcing :: "wcstring \<Rightarrow> shell_t \<Rightarrow> lookup_request list \<Rightarrow> bool" where
  "adds_by_sourcing name s rs =
     ((\<exists>r \<in> set rs. request_name r \<noteq> name) \<and> defined_by_other_file name s)"

text \<open>
  \<open>keeps name s s'\<close>: from \<open>s\<close> to \<open>s'\<close> no tombstone is lost, the name is not added to
  the table, and the environment and the directories are the same.
  \<open>tombstoned name s\<close>: the name has a tombstone and no record.
\<close>

definition keeps :: "wcstring \<Rightarrow> shell_t \<Rightarrow> shell_t \<Rightarrow> bool" where
  "keeps name s s' =
     (function_tombstones s \<subseteq> function_tombstones s' \<and>
      (loaded_functions s name = None \<longrightarrow> loaded_functions s' name = None) \<and>
      env_vars s' = env_vars s \<and> directories s' = directories s)"

definition tombstoned :: "wcstring \<Rightarrow> shell_t \<Rightarrow> bool" where
  "tombstoned name s =
     (name \<in> function_tombstones s \<and> loaded_functions s name = None)"

subsection \<open>Example states\<close>

text \<open>
  A definition request as the \<open>function\<close> command builds it, and a shell whose search path
  is the one directory \<open>/fns\<close> with three files in it. The shell is sourcing
  \<open>/home/config.fish\<close>, and \<open>if\<close> is a reserved keyword.
\<close>

definition example_data :: "wcstring \<Rightarrow> wcstring \<Rightarrow> function_data_t" where
  "example_data name body =
     \<lparr>fd_name = name, fd_description = [], fd_definition = Some body, fd_events = [],
      fd_named_arguments = [''who''], fd_inherit_vars = [], fd_shadow_scope = True\<rparr>"

definition example_file :: "wcstring \<Rightarrow> wcstring \<Rightarrow> file_t" where
  "example_file name body = \<lparr>file_mtime = 1, file_defs = [(example_data name body, 0)]\<rparr>"

definition example_shell :: shell_t where
  "example_shell =
     \<lparr>loaded_functions = Map.empty,
      function_tombstones = {},
      is_autoload = False,
      autoload_entries = [],
      autoload_last_path = [],
      autoload_requests = [],
      env_vars = [''fish_function_path'' \<mapsto> [''/fns'']],
      directories =
        [''/fns'' \<mapsto>
           [(''hello.fish'', example_file ''hello'' ''echo world''),
            (''if.fish'', example_file ''if'' ''echo if''),
            (''_internal.fish'', example_file ''_internal'' ''echo internal'')]],
      current_filename = Some ''/home/config.fish'',
      event_handlers = [],
      reserved_keywords = {''if''},
      translate = (\<lambda>text. text)\<rparr>"

text \<open>The example shell after the explicit definitions of \<open>a\<close> and \<open>b\<close>.\<close>

definition example_shell_a_b :: shell_t where
  "example_shell_a_b =
     function_add (example_data ''b'' ''echo b'') 7
       (function_add (example_data ''a'' ''echo a'') 3 example_shell)"

text \<open>The record that \<open>function_add\<close> builds in the example shell for a request.\<close>

definition example_info :: "wcstring \<Rightarrow> int \<Rightarrow> function_info_t" where
  "example_info body def_offset =
     \<lparr>fi_definition = body, fi_description = [],
      fi_definition_file = Some ''/home/config.fish'', fi_definition_offset = def_offset,
      fi_named_arguments = [''who''], fi_inherit_vars = Map.empty,
      fi_is_autoload = False, fi_shadow_scope = True\<rparr>"

text \<open>The example shell after \<open>function_exists hello\<close>, which autoloads \<open>hello\<close>.\<close>

definition example_shell_hello :: shell_t where
  "example_shell_hello = snd (function_exists ''hello'' example_shell)"

text \<open>The record that sourcing \<open>/fns/hello.fish\<close> leaves in the table.\<close>

definition example_hello_info :: function_info_t where
  "example_hello_info =
     \<lparr>fi_definition = ''echo world'', fi_description = [],
      fi_definition_file = Some ''/fns/hello.fish'', fi_definition_offset = 0,
      fi_named_arguments = [''who''], fi_inherit_vars = Map.empty,
      fi_is_autoload = True, fi_shadow_scope = True\<rparr>"

text \<open>
  A second shell: in its directory \<open>other.fish\<close> defines \<open>hello\<close> besides \<open>other\<close>, and
  \<open>ghost.fish\<close> defines nothing.
\<close>

definition example_shell_other :: shell_t where
  "example_shell_other =
     example_shell
       \<lparr>directories :=
          [''/fns'' \<mapsto>
             [(''hello.fish'', example_file ''hello'' ''echo world''),
              (''other.fish'',
               \<lparr>file_mtime = 1,
                file_defs = [(example_data ''other'' ''echo other'', 0),
                             (example_data ''hello'' ''echo again'', 4)]\<rparr>),
              (''ghost.fish'', \<lparr>file_mtime = 1, file_defs = []\<rparr>)]]\<rparr>"

text \<open>The second shell after \<open>hello\<close> was autoloaded and then removed.\<close>

definition example_other_removed :: shell_t where
  "example_other_removed =
     function_remove ''hello'' (snd (function_exists ''hello'' example_shell_other))"



section \<open>Properties\<close>

subsection \<open>Basic facts about the table\<close>

lemmas accessor_defs =
  function_get_def function_get_definition_def function_get_named_arguments_def
  function_get_shadow_scope_def function_get_definition_file_def
  function_get_definition_offset_def function_is_autoloaded_def

lemma add_event_handlers_loaded [simp]:
  "loaded_functions (add_event_handlers evs s) = loaded_functions s"
  by (induction evs arbitrary: s) (simp_all add: event_add_handler_def)

lemma function_remove_ignore_autoload_absent:
  "loaded_functions (snd (function_remove_ignore_autoload name t s)) name = None"
  by (simp add: function_remove_ignore_autoload_def event_remove_def Let_def
      split: option.splits)

lemma autoload_unload_absent:
  "loaded_functions s name = None \<Longrightarrow> loaded_functions (autoload_unload name s) name = None"
  by (simp add: autoload_unload_def autoloaded_function_removed_def Let_def
      function_remove_ignore_autoload_def split: option.splits)

lemma function_remove_absent: "loaded_functions (function_remove name s) name = None"
  using function_remove_ignore_autoload_absent [of name True s]
  by (auto simp: function_remove_def autoload_unload_absent split: prod.splits bool.splits)

text \<open>
  After \<open>function_add\<close> of a request that passes the two checks, the table holds under the
  request's name a record built from the request.
\<close>

lemma function_add_lookup:
  "fd_name R \<noteq> [] \<Longrightarrow> fd_definition R = Some d \<Longrightarrow>
   \<exists>file autoload vars.
     loaded_functions (function_add R off s) (fd_name R) =
       Some \<lparr>fi_definition = d, fi_description = fd_description R,
             fi_definition_file = file, fi_definition_offset = off,
             fi_named_arguments = fd_named_arguments R, fi_inherit_vars = vars,
             fi_is_autoload = autoload, fi_shadow_scope = fd_shadow_scope R\<rparr>"
  by (simp add: function_add_def Let_def map_insert_def function_remove_absent
      function_info_of_data_def)

lemma example_a_b_loaded:
  "loaded_functions example_shell_a_b =
     [''a'' \<mapsto> example_info ''echo a'' 3, ''b'' \<mapsto> example_info ''echo b'' 7]"
  by (simp add: example_shell_a_b_def example_shell_def example_data_def example_info_def
      function_add_def function_remove_def function_remove_ignore_autoload_def Let_def
      reader_current_filename_def function_info_of_data_def intern_def snapshot_vars_def
      map_insert_def)

subsection \<open>The example shells\<close>

lemmas eval_defs =
  function_exists_def parser_keywords_is_reserved_def load_def Let_def
  autoload_load_def env_get_def missing_or_empty_def autoload_evict_all_def
  autoload_evict_def autoload_unload_def autoloaded_function_removed_def
  source_file_def function_add_def function_remove_def
  function_remove_ignore_autoload_def event_remove_def reader_current_filename_def
  function_info_of_data_def intern_def snapshot_vars_def map_insert_def
  example_shell_def example_file_def example_data_def

lemma example_other_hello:
  "function_exists ''hello'' example_shell_other =
     (True, example_shell_other
        \<lparr>loaded_functions := [''hello'' \<mapsto> example_hello_info],
         autoload_entries := [(''hello'', \<lparr>ae_file_path = ''/fns/hello.fish'', ae_mtime = 1\<rparr>)],
         autoload_last_path := [''/fns''],
         autoload_requests := [RequestLoad ''hello'']\<rparr>)"
  by (simp add: eval_defs example_shell_other_def example_hello_info_def)

lemma example_other_removed_eq:
  "example_other_removed =
     example_shell_other
        \<lparr>loaded_functions := Map.empty,
         function_tombstones := {''hello''},
         autoload_entries := [],
         autoload_last_path := [''/fns''],
         autoload_requests := [RequestLoad ''hello'', RequestUnload ''hello'']\<rparr>"
  unfolding example_other_removed_def example_other_hello
  by (simp add: eval_defs example_shell_other_def example_hello_info_def)

lemma example_other_sourced:
  "loaded_functions (lookups [Exists ''other''] example_other_removed) ''hello'' =
     Some (example_hello_info
             \<lparr>fi_definition := ''echo again'',
              fi_definition_file := Some ''/fns/other.fish'',
              fi_definition_offset := 4\<rparr>)"
  "function_tombstones (lookups [Exists ''other''] example_other_removed) = {''hello''}"
  "reserved_keywords (lookups [Exists ''other''] example_other_removed) = {''if''}"
  unfolding example_other_removed_eq
  by (simp_all add: eval_defs example_shell_other_def example_hello_info_def)

lemma function_exists_tombstone:
  "n \<in> function_tombstones s \<Longrightarrow>
   function_exists n s = (n \<notin> reserved_keywords s \<and> loaded_functions s n \<noteq> None, s)"
  by (simp add: function_exists_def load_def parser_keywords_is_reserved_def)





subsection \<open>Copy\<close>

text \<open>
  C1, as stated, fails: in the example shell with \<open>a\<close> and \<open>b\<close> both defined,
  \<open>function_copy a b\<close> inserts nothing and still returns true.
\<close>

theorem function_copy_existing_target_counterexample:
  "loaded_functions example_shell_a_b ''b'' = Some (example_info ''echo b'' 7) \<and>
   fst (function_copy ''a'' ''b'' example_shell_a_b) = True"
  by (simp add: example_a_b_loaded function_copy_def)

text \<open>
  C1, amended: for every pair of names \<open>a\<close>, \<open>b\<close>, a record already present under \<open>b\<close> is
  left unchanged by \<open>function_copy a b\<close> (no overwrite), and the result is true exactly
  when \<open>a\<close> is present in the table, whether or not \<open>b\<close> was absent.
\<close>

theorem function_copy_no_overwrite:
  "(loaded_functions s b = Some r \<longrightarrow>
      loaded_functions (snd (function_copy a b s)) b = Some r) \<and>
   fst (function_copy a b s) = (loaded_functions s a \<noteq> None)"
  by (auto simp: function_copy_def map_insert_def split: option.splits)

theorem function_copy_no_overwrite_witness:
  "loaded_functions example_shell_a_b ''b'' = Some (example_info ''echo b'' 7) \<and>
   loaded_functions (snd (function_copy ''a'' ''b'' example_shell_a_b)) ''b'' =
     Some (example_info ''echo b'' 7) \<and>
   fst (function_copy ''a'' ''b'' example_shell_a_b) = True"
  using function_copy_no_overwrite
    [of example_shell_a_b "''b''" "example_info ''echo b'' 7" "''a''"]
  by (simp add: example_a_b_loaded)

text \<open>
  C2, as stated, fails. In the example shell with \<open>a\<close> and \<open>b\<close> defined from a sourced
  file, \<open>function_copy a c\<close> succeeds and the offset of \<open>c\<close> is 0, not -1; and
  \<open>function_copy a b\<close> succeeds too, while \<open>b\<close> keeps the file and the offset of its own
  definition.
\<close>

theorem function_copy_provenance_counterexample:
  "fst (function_copy ''a'' ''c'' example_shell_a_b) = True \<and>
   function_get_definition_offset ''c'' (snd (function_copy ''a'' ''c'' example_shell_a_b)) = 0 \<and>
   fst (function_copy ''a'' ''b'' example_shell_a_b) = True \<and>
   function_get_definition_file ''b'' (snd (function_copy ''a'' ''b'' example_shell_a_b)) =
     Some ''/home/config.fish'' \<and>
   function_get_definition_offset ''b'' (snd (function_copy ''a'' ''b'' example_shell_a_b)) = 7"
  by (simp add: example_a_b_loaded function_copy_def accessor_defs map_insert_def
      function_info_of_info_def example_info_def)

text \<open>
  C2, amended: for every name \<open>a\<close> present in the table and every name \<open>b\<close> absent from it,
  \<open>function_copy a b\<close> succeeds, and afterwards the record for \<open>b\<close> has no definition file,
  \<open>function_get_definition_offset b\<close> is 0 and \<open>function_is_autoloaded b\<close> is false.
\<close>

theorem function_copy_drops_provenance:
  "loaded_functions s a = Some info \<Longrightarrow> loaded_functions s b = None \<Longrightarrow>
   fst (function_copy a b s) = True \<and>
   function_get_definition_file b (snd (function_copy a b s)) = None \<and>
   function_get_definition_offset b (snd (function_copy a b s)) = 0 \<and>
   function_is_autoloaded b (snd (function_copy a b s)) = Inr False"
  by (simp add: function_copy_def accessor_defs map_insert_def function_info_of_info_def
      intern_def)

theorem function_copy_drops_provenance_witness:
  "loaded_functions example_shell_a_b ''a'' = Some (example_info ''echo a'' 3) \<and>
   loaded_functions example_shell_a_b ''c'' = None \<and>
   fst (function_copy ''a'' ''c'' example_shell_a_b) = True \<and>
   function_get_definition_file ''c'' (snd (function_copy ''a'' ''c'' example_shell_a_b)) =
     None \<and>
   function_get_definition_offset ''c'' (snd (function_copy ''a'' ''c'' example_shell_a_b)) =
     0 \<and>
   function_is_autoloaded ''c'' (snd (function_copy ''a'' ''c'' example_shell_a_b)) =
     Inr False"
  using function_copy_drops_provenance
    [of example_shell_a_b "''a''" "example_info ''echo a'' 3" "''c''"]
  by (simp add: example_a_b_loaded)

subsection \<open>Accessors on unknown names\<close>

text \<open>For a name that is not in the table, the accessors that test the pointer.\<close>

lemma unknown_name_sentinels:
  assumes "loaded_functions s name = None"
  shows "function_get_definition name s = None"
    and "function_get_named_arguments name s = []"
    and "function_get_inherit_vars name s = Map.empty"
    and "function_get_shadow_scope name s = False"
    and "function_get_desc name s = None"
    and "function_get_definition_file name s = None"
    and "function_get_definition_offset name s = - 1"
  using assms
  by (simp_all add: accessor_defs function_get_inherit_vars_def function_get_desc_def)

text \<open>
  C3: for a name that is not in the table every accessor is to return its sentinel, and
  \<open>function_is_autoloaded\<close> is to return false. The code does not: in the example shell,
  where \<open>nosuch\<close> is not defined, \<open>function_get\<close> returns the null pointer and
  \<open>function_is_autoloaded\<close> dereferences it.
\<close>

theorem function_is_autoloaded_unknown_name:
  "function_get ''nosuch'' example_shell = None \<and>
   function_is_autoloaded ''nosuch'' example_shell = Inl NullDereference"
  by (simp add: function_is_autoloaded_def function_get_def example_shell_def)

subsection \<open>Definition and lookup\<close>

text \<open>
  C8: for every definition request \<open>R\<close> with a non-empty name and a non-empty definition,
  right after \<open>function_add R\<close> the accessors give back the request:
  \<open>function_get_definition\<close> returns the definition unchanged,
  \<open>function_get_named_arguments\<close> the named arguments and \<open>function_get_shadow_scope\<close>
  the shadow-scope flag.
\<close>

theorem function_add_round_trip:
  "fd_name R \<noteq> [] \<Longrightarrow> fd_definition R = Some d \<Longrightarrow> d \<noteq> [] \<Longrightarrow>
   function_get_definition (fd_name R) (function_add R off s) = Some d \<and>
   function_get_named_arguments (fd_name R) (function_add R off s) = fd_named_arguments R \<and>
   function_get_shadow_scope (fd_name R) (function_add R off s) = fd_shadow_scope R"
  using function_add_lookup [of R d off s] by (auto simp: accessor_defs)

theorem function_add_round_trip_witness:
  "fd_name (example_data ''greet'' ''echo hi'') \<noteq> [] \<and>
   fd_definition (example_data ''greet'' ''echo hi'') = Some ''echo hi'' \<and>
   ''echo hi'' \<noteq> [] \<and>
   function_get_definition ''greet''
     (function_add (example_data ''greet'' ''echo hi'') 0 example_shell) = Some ''echo hi'' \<and>
   function_get_named_arguments ''greet''
     (function_add (example_data ''greet'' ''echo hi'') 0 example_shell) = [''who''] \<and>
   function_get_shadow_scope ''greet''
     (function_add (example_data ''greet'' ''echo hi'') 0 example_shell) = True"
  using function_add_round_trip
    [of "example_data ''greet'' ''echo hi''" "''echo hi''" 0 example_shell]
  by (simp add: example_data_def)

subsection \<open>Reserved keywords\<close>

text \<open>
  C5: for every reserved keyword \<open>k\<close>, \<open>function_exists k\<close> returns false and leaves the
  whole state as it was, the table and the record of requests made of the coordinator
  included (no load was attempted); \<open>function_exists_no_autoload k\<close> returns false too.
\<close>

theorem reserved_keyword_never_exists:
  "parser_keywords_is_reserved s k \<Longrightarrow>
   function_exists k s = (False, s) \<and> function_exists_no_autoload k snap s = (False, s)"
  by (simp add: function_exists_def function_exists_no_autoload_def)

theorem reserved_keyword_never_exists_witness:
  "parser_keywords_is_reserved example_shell ''if'' \<and>
   function_exists ''if'' example_shell = (False, example_shell) \<and>
   function_exists_no_autoload ''if'' (env_vars example_shell) example_shell =
     (False, example_shell)"
proof -
  have r: "parser_keywords_is_reserved example_shell ''if''"
    by (simp add: parser_keywords_is_reserved_def example_shell_def)
  show ?thesis
    using r reserved_keyword_never_exists [OF r, of "env_vars example_shell"] by simp
qed

subsection \<open>Existence without autoloading\<close>

text \<open>
  C7, as stated, fails on a reserved keyword: with a record for \<open>if\<close> in the table, and
  likewise with a file \<open>if.fish\<close> on the search path of the snapshot,
  \<open>function_exists_no_autoload if\<close> returns false.
\<close>

theorem exists_no_autoload_reserved_counterexample:
  "loaded_functions
     (function_add (example_data ''if'' ''echo if'') 0 example_shell) ''if'' \<noteq> None \<and>
   fst (function_exists_no_autoload ''if'' Map.empty
          (function_add (example_data ''if'' ''echo if'') 0 example_shell)) = False \<and>
   autoload_can_load ''if'' (env_vars example_shell) example_shell \<and>
   fst (function_exists_no_autoload ''if'' (env_vars example_shell) example_shell) = False"
  by (simp add: example_shell_def example_data_def example_file_def
      function_add_def function_remove_def function_remove_ignore_autoload_def Let_def
      map_insert_def function_exists_no_autoload_def parser_keywords_is_reserved_def
      autoload_can_load_def)

text \<open>
  C7, amended: for every name and environment snapshot, \<open>function_exists_no_autoload\<close>
  leaves the entire state unchanged (table, tombstones, coordinator bookkeeping), and it
  returns true iff the name is not a reserved keyword and is already in the table or could
  be autoloaded by the coordinator from the snapshot's view of the search path.
\<close>

theorem exists_no_autoload_pure:
  "snd (function_exists_no_autoload name snap s) = s \<and>
   fst (function_exists_no_autoload name snap s) =
     (\<not> parser_keywords_is_reserved s name \<and>
      (loaded_functions s name \<noteq> None \<or> autoload_can_load name snap s))"
  by (simp add: function_exists_no_autoload_def)

theorem exists_no_autoload_pure_witness:
  "\<not> parser_keywords_is_reserved example_shell ''hello'' \<and>
   autoload_can_load ''hello'' (env_vars example_shell) example_shell \<and>
   snd (function_exists_no_autoload ''hello'' (env_vars example_shell) example_shell) =
     example_shell \<and>
   fst (function_exists_no_autoload ''hello'' (env_vars example_shell) example_shell) = True"
proof -
  have r: "\<not> parser_keywords_is_reserved example_shell ''hello''"
    by (simp add: parser_keywords_is_reserved_def example_shell_def)
  have c: "autoload_can_load ''hello'' (env_vars example_shell) example_shell"
    by (simp add: autoload_can_load_def example_shell_def)
  show ?thesis
    using r c exists_no_autoload_pure [of "''hello''" "env_vars example_shell" example_shell]
    by simp
qed

subsection \<open>Explicit definitions and the coordinator\<close>




subsection \<open>Environment preparation\<close>

lemma length_bind_named_arguments [simp]:
  "length (bind_named_arguments named argv) = length named"
  by (induction named argv rule: bind_named_arguments.induct) simp_all

lemma nth_bind_named_arguments:
  "i < length named \<Longrightarrow>
   bind_named_arguments named argv ! i =
     (if i < length argv
      then EnvSetOne (named ! i) {ENV_LOCAL, ENV_USER} (argv ! i)
      else EnvSetEmpty (named ! i) {ENV_LOCAL, ENV_USER})"
proof (induction named argv arbitrary: i rule: bind_named_arguments.induct)
  case (1 arg)
  then show ?case by simp
next
  case (2 n named_arguments a arg)
  then show ?case by (cases i) simp_all
next
  case (3 n named_arguments)
  then show ?case by (cases i) simp_all
qed

lemma bind_named_arguments_eq:
  "bind_named_arguments named argv =
     map (\<lambda>i. if i < length argv
               then EnvSetOne (named ! i) {ENV_LOCAL, ENV_USER} (argv ! i)
               else EnvSetEmpty (named ! i) {ENV_LOCAL, ENV_USER})
       [0..<length named]"
  by (rule nth_equalityI) (simp_all add: nth_bind_named_arguments)

text \<open>
  C9: for every function name with declared named arguments and every argv vector, the
  requests that \<open>function_prepare_environment\<close> makes of the environment store are: argv
  itself; then, for the named arguments in declaration order, the \<open>i\<close>-th name bound to
  the \<open>i\<close>-th element of argv at local user scope while argv has an \<open>i\<close>-th element, and set
  to the empty list at local user scope once argv is exhausted; then the inherited
  variables. So every element of argv is bound to at most one name.
\<close>

theorem prepare_environment_binds_named_arguments:
  "function_get_named_arguments name s = named \<Longrightarrow> named \<noteq> [] \<Longrightarrow>
   function_prepare_environment name argv inherited_vars s =
     EnvSetArgv argv #
     map (\<lambda>i. if i < length argv
               then EnvSetOne (named ! i) {ENV_LOCAL, ENV_USER} (argv ! i)
               else EnvSetEmpty (named ! i) {ENV_LOCAL, ENV_USER})
       [0..<length named] @
     map (\<lambda>it. EnvSet (fst it) {ENV_LOCAL, ENV_USER} (snd it)) inherited_vars"
  by (simp add: function_prepare_environment_def bind_named_arguments_eq)

theorem prepare_environment_binds_named_arguments_witness:
  "function_get_named_arguments ''a'' example_shell_a_b = [''who''] \<and>
   [''who''] \<noteq> ([] :: wcstring list) \<and>
   function_prepare_environment ''a'' [''x'', ''y''] [] example_shell_a_b =
     [EnvSetArgv [''x'', ''y''], EnvSetOne ''who'' {ENV_LOCAL, ENV_USER} ''x''] \<and>
   function_prepare_environment ''a'' [] [] example_shell_a_b =
     [EnvSetArgv [], EnvSetEmpty ''who'' {ENV_LOCAL, ENV_USER}]"
proof -
  have n: "function_get_named_arguments ''a'' example_shell_a_b = [''who'']"
    by (simp add: accessor_defs example_a_b_loaded example_info_def)
  have m: "[''who''] \<noteq> ([] :: wcstring list)" by simp
  show ?thesis
    using n prepare_environment_binds_named_arguments [OF n m, of "[''x'', ''y'']" "[]"]
      prepare_environment_binds_named_arguments [OF n m, of "[]" "[]"]
    by simp
qed

subsection \<open>Enumeration of names\<close>

lemma take_not_hidden:
  "\<not> (fn \<noteq> [] \<and> hd fn = CHR ''_'') \<Longrightarrow> take k fn \<noteq> CHR ''_'' # rest"
  by (cases fn; cases k) auto

lemma autoload_names_dir_visible:
  "\<forall>n \<in> names. \<forall>rest. n \<noteq> CHR ''_'' # rest \<Longrightarrow>
   \<forall>n \<in> autoload_names_dir entries False names. \<forall>rest. n \<noteq> CHR ''_'' # rest"
proof (induction entries False names rule: autoload_names_dir.induct)
  case (1 names)
  then show ?case by simp
next
  case (2 fn entries names)
  then show ?case
    by (auto simp: take_not_hidden split: option.splits if_splits)
qed

lemma autoload_names_path_visible:
  "\<forall>n \<in> names. \<forall>rest. n \<noteq> CHR ''_'' # rest \<Longrightarrow>
   \<forall>n \<in> autoload_names_path s path_list False names. \<forall>rest. n \<noteq> CHR ''_'' # rest"
proof (induction path_list arbitrary: names)
  case Nil
  then show ?case by simp
next
  case (Cons ndir path_list)
  show ?case
  proof (cases "directories s ndir")
    case None
    with Cons show ?thesis by simp
  next
    case (Some entries)
    have "\<forall>n \<in> autoload_names_dir (map fst entries) False names.
            \<forall>rest. n \<noteq> CHR ''_'' # rest"
      using Cons.prems by (rule autoload_names_dir_visible)
    then show ?thesis using Some Cons.IH by simp
  qed
qed

lemma autoload_names_visible:
  "n \<in> autoload_names {} False s \<Longrightarrow> n \<noteq> CHR ''_'' # rest"
  using autoload_names_path_visible [of "{}" s _]
  by (auto simp: autoload_names_def Let_def split: if_splits option.splits)

lemma example_names:
  "function_get_names False example_shell = {''hello'', ''if''}"
  "''_internal'' \<in> function_get_names True example_shell"
  by (auto simp: function_get_names_def autoload_names_def Let_def env_get_def
      missing_or_empty_def example_shell_def)

text \<open>
  C6: for every state of the registry, the search path and its directories included,
  \<open>function_get_names\<close> without hidden names contains no name that starts with an
  underscore, whether the name comes from the table or from a file of a directory of the
  search path.
\<close>

theorem get_names_without_hidden:
  "name \<in> function_get_names False s \<Longrightarrow> \<not> (\<exists>rest. name = CHR ''_'' # rest)"
  by (auto simp: function_get_names_def dest: autoload_names_visible)

theorem get_names_without_hidden_witness:
  "''hello'' \<in> function_get_names False example_shell \<and>
   \<not> (\<exists>rest. ''hello'' = CHR ''_'' # rest) \<and>
   ''_internal'' \<notin> function_get_names False example_shell \<and>
   ''_internal'' \<in> function_get_names True example_shell"
proof -
  have h: "''hello'' \<in> function_get_names False example_shell"
    by (simp add: example_names)
  show ?thesis
    using h get_names_without_hidden [OF h] by (simp add: example_names)
qed

subsection \<open>Removal of an autoloaded function\<close>

lemma keeps_refl [simp]: "keeps name s s"
  by (simp add: keeps_def)

lemma keeps_trans: "keeps name s s1 \<Longrightarrow> keeps name s1 s2 \<Longrightarrow> keeps name s s2"
  by (auto simp: keeps_def)

lemma keeps_remove_ignore:
  "keeps name s (snd (function_remove_ignore_autoload n t s))"
  by (auto simp: keeps_def function_remove_ignore_autoload_def event_remove_def Let_def
      split: option.splits)

lemma keeps_removed: "keeps name s (autoloaded_function_removed n s)"
  by (simp add: autoloaded_function_removed_def keeps_remove_ignore)

lemma keeps_unload: "keeps name s (autoload_unload n s)"
proof -
  let ?s1 = "s\<lparr>autoload_requests := autoload_requests s @ [RequestUnload n]\<rparr>"
  let ?s2 = "?s1\<lparr>autoload_entries := filter (\<lambda>p. fst p \<noteq> n) (autoload_entries ?s1)\<rparr>"
  have a: "keeps name s ?s2" by (simp add: keeps_def)
  have b: "keeps name s ?s1" by (simp add: keeps_def)
  have c: "keeps name ?s2 (autoloaded_function_removed n ?s2)" by (rule keeps_removed)
  show ?thesis
    using b keeps_trans [OF a c]
    by (simp add: autoload_unload_def Let_def split: option.splits)
qed

lemma keeps_evict: "keeps name s (autoload_evict n s)"
proof -
  let ?s2 = "s\<lparr>autoload_entries := filter (\<lambda>p. fst p \<noteq> n) (autoload_entries s)\<rparr>"
  have a: "keeps name s ?s2" by (simp add: keeps_def)
  have c: "keeps name ?s2 (autoloaded_function_removed n ?s2)" by (rule keeps_removed)
  show ?thesis
    using keeps_trans [OF a c] by (simp add: autoload_evict_def split: option.splits)
qed

lemma keeps_evict_names: "keeps name s (autoload_evict_names ns s)"
proof (induction ns arbitrary: s)
  case Nil
  then show ?case by simp
next
  case (Cons n ns)
  show ?case
    using keeps_trans [OF keeps_evict [of name s n] Cons.IH [of "autoload_evict n s"]]
    by simp
qed

lemma keeps_evict_all: "keeps name s (autoload_evict_all s)"
  by (simp add: autoload_evict_all_def keeps_evict_names)

lemma keeps_remove: "keeps name s (function_remove n s)"
proof (cases "function_remove_ignore_autoload n True s")
  case (Pair ok s1)
  have a: "keeps name s s1"
    using keeps_remove_ignore [of name s n True] Pair by simp
  show ?thesis
    using a keeps_trans [OF a keeps_unload [of name s1 n]] Pair
    by (cases ok) (simp_all add: function_remove_def)
qed

lemma keeps_add_event_handlers: "keeps name s (add_event_handlers evs s)"
proof (induction evs arbitrary: s)
  case Nil
  then show ?case by simp
next
  case (Cons ev evs)
  have a: "keeps name s (event_add_handler ev s)"
    by (simp add: keeps_def event_add_handler_def)
  show ?case using keeps_trans [OF a Cons.IH] by simp
qed

lemma keeps_add: "fd_name d \<noteq> name \<Longrightarrow> keeps name s (function_add d off s)"
proof -
  assume ne: "fd_name d \<noteq> name"
  let ?s1 = "function_remove (fd_name d) s"
  let ?info = "function_info_of_data ?s1 d (reader_current_filename ?s1) off (is_autoload ?s1)"
  let ?s2 = "?s1\<lparr>loaded_functions := map_insert (loaded_functions ?s1) (fd_name d) ?info\<rparr>"
  have a: "keeps name s ?s1" by (rule keeps_remove)
  have b: "keeps name ?s1 ?s2" using ne by (simp add: keeps_def map_insert_def)
  have c: "keeps name ?s2 (add_event_handlers (fd_events d) ?s2)"
    by (rule keeps_add_event_handlers)
  show ?thesis
    using keeps_trans [OF keeps_trans [OF a b] c]
    by (simp add: function_add_def Let_def)
qed

lemma keeps_source_defs:
  "\<forall>d \<in> set ds. fd_name (fst d) \<noteq> name \<Longrightarrow> keeps name s (source_defs ds s)"
proof (induction ds arbitrary: s)
  case Nil
  then show ?case by simp
next
  case (Cons d ds)
  have a: "keeps name s (function_add (fst d) (snd d) s)"
    using Cons.prems by (simp add: keeps_add)
  have b: "keeps name (function_add (fst d) (snd d) s)
             (source_defs ds (function_add (fst d) (snd d) s))"
    using Cons.prems by (intro Cons.IH) simp
  show ?case using keeps_trans [OF a b] by simp
qed

lemma keeps_source_file:
  assumes "\<forall>d \<in> set (file_defs f). fd_name (fst d) \<noteq> name"
  shows "keeps name s (source_file path f s)"
proof -
  let ?s0 = "s\<lparr>current_filename := Some path\<rparr>"
  have a: "keeps name s ?s0" by (simp add: keeps_def)
  have b: "keeps name ?s0 (source_defs (file_defs f) ?s0)"
    using assms by (rule keeps_source_defs)
  have c: "keeps name (source_defs (file_defs f) ?s0)
             ((source_defs (file_defs f) ?s0)\<lparr>current_filename := current_filename s\<rparr>)"
    by (simp add: keeps_def)
  show ?thesis
    using keeps_trans [OF keeps_trans [OF a b] c] by (simp add: source_file_def Let_def)
qed

lemma locate_file_entry:
  "locate_file dirs path n = Some (file_path, f) \<Longrightarrow>
   \<exists>dir \<in> set path. \<exists>entries. dirs dir = Some entries \<and> (n @ ''.fish'', f) \<in> set entries"
proof (induction path)
  case Nil
  then show ?case by simp
next
  case (Cons d path)
  then show ?case
    by (auto split: option.splits dest: map_of_SomeD)
qed

lemma located_file_defs:
  assumes loc: "locate_file (directories s) path n = Some (file_path, f)"
    and path: "env_get s ''fish_function_path'' = Some path"
    and other: "\<not> defined_by_other_file name s"
    and ne: "n \<noteq> name"
  shows "\<forall>d \<in> set (file_defs f). fd_name (fst d) \<noteq> name"
proof -
  from locate_file_entry [OF loc] obtain dir entries where
    d: "dir \<in> set path" "directories s dir = Some entries" "(n @ ''.fish'', f) \<in> set entries"
    by blast
  then have "(n @ ''.fish'', f) \<in> set (path_files s)"
    using path by (force simp: path_files_def)
  moreover have "n @ ''.fish'' \<noteq> name @ ''.fish''" using ne by simp
  ultimately show ?thesis
    using other by (force simp: defined_by_other_file_def)
qed

lemma keeps_defined_by_other_file:
  "keeps name s s' \<Longrightarrow> defined_by_other_file n s' = defined_by_other_file n s"
  by (simp add: keeps_def defined_by_other_file_def path_files_def env_get_def)

lemma keeps_env_get: "keeps name s s' \<Longrightarrow> env_get s' v = env_get s v"
  by (simp add: keeps_def env_get_def)

lemma keeps_autoload_load:
  assumes other: "\<not> defined_by_other_file name s0" and ne: "n \<noteq> name"
  shows "keeps name s0 (snd (autoload_load n s0))"
proof -
  let ?s = "s0\<lparr>autoload_requests := autoload_requests s0 @ [RequestLoad n]\<rparr>"
  have k0: "keeps name s0 ?s" by (simp add: keeps_def)
  show ?thesis
  proof (cases "env_get ?s ''fish_function_path''")
    case None
    then show ?thesis using k0 by (simp add: autoload_load_def missing_or_empty_def)
  next
    case (Some path)
    let ?s1 = "if path \<noteq> autoload_last_path ?s
               then autoload_evict_all (?s\<lparr>autoload_last_path := path\<rparr>) else ?s"
    have "keeps name ?s (?s\<lparr>autoload_last_path := path\<rparr>)" by (simp add: keeps_def)
    then have "keeps name ?s ?s1"
      using keeps_trans [OF _ keeps_evict_all [of name "?s\<lparr>autoload_last_path := path\<rparr>"]]
      by simp
    then have k1: "keeps name s0 ?s1" using keeps_trans [OF k0] by blast
    show ?thesis
    proof (cases "path = []")
      case True
      then show ?thesis using k0 Some by (simp add: autoload_load_def missing_or_empty_def)
    next
      case False
      show ?thesis
      proof (cases "locate_file (directories ?s1) path n")
        case None
        have "keeps name s0 (autoload_evict n ?s1)"
          using keeps_trans [OF k1 keeps_evict] by blast
        then show ?thesis
          using Some False None
          by (simp add: autoload_load_def missing_or_empty_def Let_def)
      next
        case found: (Some located)
        obtain file_path f where located: "located = (file_path, f)" by (cases located)
        have defs: "\<forall>d \<in> set (file_defs f). fd_name (fst d) \<noteq> name"
        proof (rule located_file_defs [OF _ _ _ ne])
          show "locate_file (directories ?s1) path n = Some (file_path, f)"
            using found located by simp
          show "env_get ?s1 ''fish_function_path'' = Some path"
            using keeps_env_get [OF k1] Some keeps_env_get [OF k0] by simp
          show "\<not> defined_by_other_file name ?s1"
            using keeps_defined_by_other_file [OF k1] other by simp
        qed
        let ?s2 = "autoload_evict n ?s1"
        let ?s3 = "?s2\<lparr>autoload_entries := autoload_entries ?s2 @
                      [(n, \<lparr>ae_file_path = file_path, ae_mtime = file_mtime f\<rparr>)]\<rparr>"
        have k2: "keeps name s0 ?s2" using keeps_trans [OF k1 keeps_evict] by blast
        have "keeps name ?s2 ?s3" by (simp add: keeps_def)
        then have k3: "keeps name s0 ?s3" using keeps_trans [OF k2] by blast
        have k4: "keeps name s0 (source_file file_path f ?s3)"
          using keeps_trans [OF k3 keeps_source_file [OF defs]] by blast
        show ?thesis
          using Some False found located k1 k4
          by (simp add: autoload_load_def missing_or_empty_def Let_def)
      qed
    qed
  qed
qed

lemma keeps_load:
  assumes other: "\<not> defined_by_other_file name s"
    and tomb: "name \<in> function_tombstones s"
  shows "keeps name s (snd (load n s))"
proof (cases "n = name")
  case True
  then show ?thesis using tomb by (simp add: load_def)
next
  case False
  let ?s0 = "s\<lparr>is_autoload := True\<rparr>"
  obtain res s1 where al: "autoload_load n ?s0 = (res, s1)"
    by (cases "autoload_load n ?s0")
  have k0: "keeps name s ?s0" by (simp add: keeps_def)
  have o: "\<not> defined_by_other_file name ?s0"
    using keeps_defined_by_other_file [OF k0] other by simp
  have k1: "keeps name s s1"
    using keeps_trans [OF k0 keeps_autoload_load [OF o False]] al by simp
  have "keeps name s1 (s1\<lparr>is_autoload := is_autoload s\<rparr>)"
    by (simp add: keeps_def)
  then have k2: "keeps name s (s1\<lparr>is_autoload := is_autoload s\<rparr>)"
    using keeps_trans [OF k1] by blast
  show ?thesis
    using k2 al by (simp add: load_def Let_def)
qed

lemma tombstoned_keeps: "tombstoned name s \<Longrightarrow> keeps name s s' \<Longrightarrow> tombstoned name s'"
  by (auto simp: tombstoned_def keeps_def)

lemma keeps_lookup:
  assumes t: "tombstoned name s" and other: "\<not> defined_by_other_file name s"
  shows "keeps name s (lookup r s)"
proof -
  have k: "keeps name s (snd (load n s))" for n
    using t other by (intro keeps_load) (simp_all add: tombstoned_def)
  show ?thesis
  proof (cases r)
    case (Exists cmd)
    then show ?thesis
      using k [of cmd] by (cases "load cmd s") (simp add: function_exists_def)
  next
    case (Load cmd)
    then show ?thesis using k [of cmd] by (simp add: function_load_def)
  qed
qed

lemma keeps_lookups:
  "tombstoned name s \<Longrightarrow> \<not> defined_by_other_file name s \<Longrightarrow> keeps name s (lookups rs s)"
proof (induction rs arbitrary: s)
  case Nil
  then show ?case by simp
next
  case (Cons r rs)
  have k: "keeps name s (lookup r s)"
    using Cons.prems by (rule keeps_lookup)
  have "keeps name (lookup r s) (lookups rs (lookup r s))"
  proof (rule Cons.IH)
    show "tombstoned name (lookup r s)"
      using Cons.prems(1) k by (rule tombstoned_keeps)
    show "\<not> defined_by_other_file name (lookup r s)"
      using keeps_defined_by_other_file [OF k] Cons.prems(2) by simp
  qed
  then show ?case using keeps_trans [OF k] by simp
qed

text \<open>A lookup of a tombstoned name changes nothing.\<close>

lemma lookup_tombstoned_name:
  "tombstoned name s \<Longrightarrow> request_name r = name \<Longrightarrow> lookup r s = s"
  by (cases r) (simp_all add: tombstoned_def function_exists_def function_load_def load_def)

lemma lookups_tombstoned_name:
  "tombstoned name s \<Longrightarrow> \<forall>r \<in> set rs. request_name r = name \<Longrightarrow> lookups rs s = s"
  by (induction rs) (simp_all add: lookup_tombstoned_name)

lemma tombstoned_lookups:
  assumes t: "tombstoned name s" and no_add: "\<not> adds_by_sourcing name s rs"
  shows "tombstoned name (lookups rs s)"
proof (cases "defined_by_other_file name s")
  case True
  then have "\<forall>r \<in> set rs. request_name r = name"
    using no_add by (simp add: adds_by_sourcing_def)
  then show ?thesis using t by (simp add: lookups_tombstoned_name)
next
  case False
  then show ?thesis using t keeps_lookups tombstoned_keeps by blast
qed

lemma tombstoned_not_exists:
  "tombstoned name s \<Longrightarrow> function_exists name s = (False, s)"
  by (simp add: tombstoned_def function_exists_def load_def)

lemma tombstoned_after_remove:
  assumes "loaded_functions s name = Some info" "fi_is_autoload info"
  shows "tombstoned name (function_remove name s)"
proof -
  let ?s1 = "snd (function_remove_ignore_autoload name True s)"
  have t: "name \<in> function_tombstones ?s1"
    using assms by (simp add: function_remove_ignore_autoload_def event_remove_def Let_def)
  have r: "function_remove name s = autoload_unload name ?s1"
    using assms by (simp add: function_remove_def function_remove_ignore_autoload_def Let_def)
  have "name \<in> function_tombstones (function_remove name s)"
    using t keeps_unload [of name ?s1 name] unfolding r by (auto simp: keeps_def)
  then show ?thesis
    by (simp add: tombstoned_def function_remove_absent)
qed

lemma adds_by_sourcing_remove:
  "adds_by_sourcing name (function_remove n s) rs = adds_by_sourcing name s rs"
  using keeps_defined_by_other_file [OF keeps_remove [of name s n], of name]
  by (simp add: adds_by_sourcing_def)

text \<open>
  C4, as stated, fails. In the second example shell \<open>hello\<close> is autoloaded and removed, and
  does not exist. Then \<open>function_exists other\<close> sources \<open>other.fish\<close>, whose definition of
  \<open>hello\<close> goes through \<open>function_add\<close>: \<open>hello\<close> exists again, as an autoloaded record,
  with its tombstone still in place.
\<close>

theorem tombstoned_name_sourced_again_counterexample:
  "function_is_autoloaded ''hello'' (snd (function_exists ''hello'' example_shell_other)) =
     Inr True \<and>
   fst (function_exists ''hello'' example_other_removed) = False \<and>
   ''hello'' \<in> function_tombstones (lookups [Exists ''other''] example_other_removed) \<and>
   fst (function_exists ''hello'' (lookups [Exists ''other''] example_other_removed)) =
     True \<and>
   function_is_autoloaded ''hello'' (lookups [Exists ''other''] example_other_removed) =
     Inr True"
proof -
  have a: "function_is_autoloaded ''hello''
             (snd (function_exists ''hello'' example_shell_other)) = Inr True"
    by (simp add: example_other_hello accessor_defs example_hello_info_def)
  have b: "fst (function_exists ''hello'' example_other_removed) = False"
    by (simp add: example_other_removed_eq function_exists_def load_def)
  have t: "''hello'' \<in> function_tombstones (lookups [Exists ''other''] example_other_removed)"
    unfolding example_other_sourced by simp
  have c: "fst (function_exists ''hello''
                  (lookups [Exists ''other''] example_other_removed)) = True"
    unfolding function_exists_tombstone [OF t] example_other_sourced by simp
  have d: "function_is_autoloaded ''hello''
             (lookups [Exists ''other''] example_other_removed) = Inr True"
    unfolding accessor_defs example_other_sourced by (simp add: example_hello_info_def)
  from a b t c d show ?thesis by blast
qed

text \<open>
  C4, amended: for every name whose record is autoloaded, after \<open>function_remove name\<close>
  the function does not exist, and it still does not after any further sequence of
  \<open>function_exists\<close> and \<open>function_load\<close> calls (the tombstone stops \<open>load\<close> before the
  coordinator is asked, though the file is unchanged), provided that every call of the
  sequence is for that name, or that no file of another name on the search path defines
  the name.
\<close>

theorem removed_autoloaded_function_stays_absent:
  "loaded_functions s name = Some info \<Longrightarrow> fi_is_autoload info \<Longrightarrow>
   \<not> adds_by_sourcing name s rs \<Longrightarrow>
   fst (function_exists name (lookups rs (function_remove name s))) = False"
  using tombstoned_not_exists [OF tombstoned_lookups [OF tombstoned_after_remove]]
  by (simp add: adds_by_sourcing_remove)

lemma example_hello_autoloaded:
  "function_exists ''hello'' example_shell =
     (True, example_shell
        \<lparr>loaded_functions := [''hello'' \<mapsto> example_hello_info],
         autoload_entries := [(''hello'', \<lparr>ae_file_path = ''/fns/hello.fish'', ae_mtime = 1\<rparr>)],
         autoload_last_path := [''/fns''],
         autoload_requests := [RequestLoad ''hello'']\<rparr>)"
  by (simp add: function_exists_def parser_keywords_is_reserved_def load_def Let_def
      autoload_load_def env_get_def missing_or_empty_def autoload_evict_all_def
      autoload_evict_def source_file_def function_add_def function_remove_def
      function_remove_ignore_autoload_def reader_current_filename_def
      function_info_of_data_def intern_def snapshot_vars_def map_insert_def
      example_shell_def example_file_def example_data_def example_hello_info_def)

theorem removed_autoloaded_function_stays_absent_witness:
  "fst (function_exists ''hello'' example_shell) = True \<and>
   loaded_functions example_shell_hello ''hello'' = Some example_hello_info \<and>
   fi_is_autoload example_hello_info \<and>
   \<not> adds_by_sourcing ''hello'' example_shell_hello
        [Exists ''hello'', Load ''hello'', Exists ''_internal'', Load ''if''] \<and>
   fst (function_exists ''hello'' (function_remove ''hello'' example_shell_hello)) = False \<and>
   fst (function_exists ''hello''
          (lookups [Exists ''hello'', Load ''hello'', Exists ''_internal'', Load ''if'']
             (function_remove ''hello'' example_shell_hello))) = False"
proof -
  have l: "loaded_functions example_shell_hello ''hello'' = Some example_hello_info"
    by (simp add: example_shell_hello_def example_hello_autoloaded)
  have a: "fi_is_autoload example_hello_info"
    by (simp add: example_hello_info_def)
  have e: "env_vars example_shell_hello = env_vars example_shell"
    "directories example_shell_hello = directories example_shell"
    by (simp_all add: example_shell_hello_def example_hello_autoloaded)
  have "\<not> defined_by_other_file ''hello'' example_shell_hello"
    unfolding defined_by_other_file_def path_files_def env_get_def e
    by (simp add: example_shell_def example_file_def example_data_def)
  then have o: "\<not> adds_by_sourcing ''hello'' example_shell_hello rs" for rs
    by (simp add: adds_by_sourcing_def)
  show ?thesis
    using l a o removed_autoloaded_function_stays_absent [OF l a o, of "[]"]
      removed_autoloaded_function_stays_absent
        [OF l a o, of "[Exists ''hello'', Load ''hello'', Exists ''_internal'', Load ''if'']"]
    by (simp add: example_hello_autoloaded)
qed

end
